theory Spec2Isabelle
  imports Main "HOL-Library.Multiset"
begin

section \<open>Candidates and the environment of one article\<close>

text \<open>
  An image candidate is the dictionary \<^verbatim>\<open>{'url': ..., 'score': ..., 'source': ...}\<close> that the
  extraction methods of \<^verbatim>\<open>ImageScraperPipeline\<close> append to their result lists. Python strings
  are modelled as lists of 8-bit characters, Python integers as \<open>int\<close>.
\<close>

record candidate =
  url :: string
  score :: int
  source :: string

type_synonym bytes = "char list"

text \<open>
  Everything the pipeline reads from the network is an input of the model. A request that
  raises (connection failure, timeout, exhausted retries) is the value \<open>Inl RequestException\<close>.
  The body of a streamed response is the sequence of chunks that \<^verbatim>\<open>iter_content\<close> yields; an
  item \<open>Inl e\<close> is the place where the iteration raises.
\<close>

datatype net_error = RequestException

record head_response =
  content_length :: "string option"

record get_response =
  status_code :: nat
  iter_content :: "(net_error + bytes) list"

text \<open>
  \<open>session_head\<close> and \<open>session_get\<close> stand for \<^verbatim>\<open>self.session.head\<close> and
  \<^verbatim>\<open>self.session.get(..., stream=True)\<close>; \<open>image_size\<close> stands for
  \<^verbatim>\<open>Image.open(io.BytesIO(data)).size\<close> of Pillow, with \<open>None\<close> when it raises. The three
  extraction methods are taken whole, as the candidate lists they return for an article URL
  (each of them catches its own exceptions and returns the empty list).
\<close>

record env =
  session_head :: "string \<Rightarrow> net_error + head_response"
  session_get :: "string \<Rightarrow> net_error + get_response"
  image_size :: "bytes \<Rightarrow> (int \<times> int) option"
  extract_images_trafilatura :: "string \<Rightarrow> candidate list"
  extract_images_newspaper :: "string \<Rightarrow> candidate list"
  extract_images_beautifulsoup :: "string \<Rightarrow> candidate list"


section \<open>validate_image_size\<close>

subsection \<open>The built-in int on a header value\<close>

text \<open>
  \<^verbatim>\<open>int(content_length)\<close>: surrounding whitespace is stripped, one sign is allowed, then
  decimal digits, where single underscores may separate digits. Anything else raises
  ValueError, here \<open>None\<close>. The whitespace that \<^verbatim>\<open>int\<close> strips is, among the 8-bit
  characters, the space, the characters 0x09 to 0x0D, 0x85 and 0xA0; the separators 0x1C to
  0x1F are not stripped, and a string with one of them raises ValueError.
\<close>

definition is_space :: "char \<Rightarrow> bool" where
  "is_space c = (c \<in> set [CHR '' '', CHR 0x09, CHR 0x0A, CHR 0x0B, CHR 0x0C, CHR 0x0D,
                           CHR 0x85, CHR 0xA0])"

definition strip :: "string \<Rightarrow> string" where
  "strip s = rev (dropWhile is_space (rev (dropWhile is_space s)))"

definition is_digit :: "char \<Rightarrow> bool" where
  "is_digit c = (48 \<le> (of_char c :: nat) \<and> (of_char c :: nat) \<le> 57)"

definition digit_val :: "char \<Rightarrow> int" where
  "digit_val c = of_char c - 48"

fun digits_value :: "int \<Rightarrow> string \<Rightarrow> int option" where
  "digits_value acc [] = Some acc"
| "digits_value acc [c] = (if is_digit c then Some (10 * acc + digit_val c) else None)"
| "digits_value acc (c # d # cs) =
     (if is_digit c then
        (if d = CHR ''_'' then
           (case cs of [] \<Rightarrow> None
            | e # _ \<Rightarrow> if is_digit e then digits_value (10 * acc + digit_val c) cs else None)
         else digits_value (10 * acc + digit_val c) (d # cs))
      else None)"

definition py_int :: "string \<Rightarrow> int option" where
  "py_int s =
     (case strip s of
        [] \<Rightarrow> None
      | c # cs \<Rightarrow>
          if c = CHR ''-'' then (if cs = [] then None else map_option uminus (digits_value 0 cs))
          else if c = CHR ''+'' then (if cs = [] then None else digits_value 0 cs)
          else digits_value 0 (c # cs))"

subsection \<open>The size check on the content-length header\<close>

text \<open>
  \<^verbatim>\<open>size_mb = int(content_length) / (1024 * 1024)\<close> is a true division with a float result.
  It raises OverflowError when the correctly rounded quotient does not fit a double, that is
  when its magnitude is at least \<open>2^1024 - 2^970\<close>. Otherwise, as 1048576 is a power of
  two, the quotient of 10485760 is exactly 10.0, the quotient of 10485761 is exact and
  above 10.0, and rounding is monotone: \<^verbatim>\<open>size_mb > self.max_file_size_mb\<close> holds exactly
  when the integer is above 10485760.
\<close>

definition max_file_size_mb :: int where
  "max_file_size_mb = 10"

definition true_div_overflows :: "int \<Rightarrow> bool" where
  "true_div_overflows n = (\<bar>n\<bar> \<ge> (2 ^ 1024 - 2 ^ 970) * (1024 * 1024))"

definition size_mb_exceeds :: "int \<Rightarrow> bool" where
  "size_mb_exceeds n = (n > max_file_size_mb * (1024 * 1024))"

text \<open>
  The outcome of the header check: \<open>Some b\<close> when the method returns \<open>b\<close> at this point
  (False for a file that is too large, True from the handler of the outer \<^verbatim>\<open>try\<close> when
  \<^verbatim>\<open>int\<close> or the division raises), \<open>None\<close> when the method goes on to the GET request.
  A missing header and an empty header value are both falsy.
\<close>

definition check_content_length :: "string option \<Rightarrow> bool option" where
  "check_content_length h =
     (case h of
        None \<Rightarrow> None
      | Some cl \<Rightarrow>
          if cl = [] then None
          else (case py_int cl of
                  None \<Rightarrow> Some True
                | Some n \<Rightarrow>
                    if true_div_overflows n then Some True
                    else if size_mb_exceeds n then Some False
                    else None))"

subsection \<open>Reading the first 10 KB\<close>

definition chunk_size :: nat where
  "chunk_size = 1024"

fun read_prefix :: "bytes \<Rightarrow> (net_error + bytes) list \<Rightarrow> net_error + bytes" where
  "read_prefix data [] = Inr data"
| "read_prefix data (Inl e # rest) = Inl e"
| "read_prefix data (Inr chunk # rest) =
     (if length (data @ chunk) > chunk_size * 10 then Inr (data @ chunk)
      else read_prefix (data @ chunk) rest)"

definition raise_for_status :: "get_response \<Rightarrow> bool" where
  \<comment> \<open>True when \<^verbatim>\<open>response.raise_for_status()\<close> raises HTTPError.\<close>
  "raise_for_status r = (400 \<le> status_code r \<and> status_code r < 600)"

definition min_image_size :: "int \<times> int" where
  "min_image_size = (100, 100)"

definition validate_image_size :: "env \<Rightarrow> string \<Rightarrow> bool" where
  "validate_image_size e img_url =
     (case session_head e img_url of
        Inl err \<Rightarrow> True
      | Inr head_resp \<Rightarrow>
          (case check_content_length (content_length head_resp) of
             Some verdict \<Rightarrow> verdict
           | None \<Rightarrow>
               (case session_get e img_url of
                  Inl err \<Rightarrow> True
                | Inr response \<Rightarrow>
                    if raise_for_status response then True
                    else (case read_prefix [] (iter_content response) of
                            Inl err \<Rightarrow> True
                          | Inr data \<Rightarrow>
                              (case image_size e data of
                                 None \<Rightarrow> True
                               | Some (width, height) \<Rightarrow>
                                   if width < fst min_image_size \<or> height < snd min_image_size
                                   then False else True)))))"


section \<open>scrape_article_images\<close>

subsection \<open>The fallback chain\<close>

datatype strategy = Trafilatura | Newspaper | BeautifulSoup

definition best_score :: "candidate list \<Rightarrow> int" where
  \<comment> \<open>\<^verbatim>\<open>max([img['score'] for img in all_images], default=0)\<close>\<close>
  "best_score imgs =
     (case map score imgs of [] \<Rightarrow> 0 | s # ss \<Rightarrow> fold max ss s)"

text \<open>
  The chain of \<^verbatim>\<open>scrape_article_images\<close> threads \<^verbatim>\<open>all_images\<close> through up to three
  calls. The state of the model holds, beside \<^verbatim>\<open>all_images\<close>, the log of the extraction
  methods called so far, in the order of the calls.
\<close>

record chain_state =
  all_images :: "candidate list"
  called :: "strategy list"

definition run_method :: "env \<Rightarrow> strategy \<Rightarrow> string \<Rightarrow> candidate list" where
  "run_method e m article_url =
     (case m of
        Trafilatura \<Rightarrow> extract_images_trafilatura e article_url
      | Newspaper \<Rightarrow> extract_images_newspaper e article_url
      | BeautifulSoup \<Rightarrow> extract_images_beautifulsoup e article_url)"

definition call_method :: "env \<Rightarrow> strategy \<Rightarrow> string \<Rightarrow> chain_state \<Rightarrow> chain_state" where
  \<comment> \<open>\<^verbatim>\<open>images = self.extract_images_...(url); all_images.extend(images)\<close>\<close>
  "call_method e m article_url st =
     st\<lparr>all_images := all_images st @ run_method e m article_url,
        called := called st @ [m]\<rparr>"

definition method1 :: "env \<Rightarrow> string \<Rightarrow> chain_state" where
  "method1 e article_url =
     call_method e Trafilatura article_url \<lparr>all_images = [], called = []\<rparr>"

definition method2 :: "env \<Rightarrow> string \<Rightarrow> chain_state" where
  "method2 e article_url =
     (let st = method1 e article_url in
      if best_score (all_images st) < 80 then call_method e Newspaper article_url st else st)"

definition method3 :: "env \<Rightarrow> string \<Rightarrow> chain_state" where
  "method3 e article_url =
     (let st = method2 e article_url in
      if best_score (all_images st) < 70 then call_method e BeautifulSoup article_url st else st)"

subsection \<open>Removing duplicates\<close>

text \<open>
  \<^verbatim>\<open>seen_urls\<close> is a Python dictionary, which keeps its keys in the order of their first
  insertion; assigning to an existing key replaces the value in place. It is modelled as an
  association list with distinct keys.
\<close>

fun dict_set :: "('k \<times> 'v) list \<Rightarrow> 'k \<Rightarrow> 'v \<Rightarrow> ('k \<times> 'v) list" where
  "dict_set [] k v = [(k, v)]"
| "dict_set ((k', v') # kvs) k v =
     (if k' = k then (k, v) # kvs else (k', v') # dict_set kvs k v)"

fun remove_duplicates :: "(string \<times> candidate) list \<Rightarrow> candidate list \<Rightarrow> (string \<times> candidate) list" where
  "remove_duplicates seen_urls [] = seen_urls"
| "remove_duplicates seen_urls (img # rest) =
     (let img_url = url img in
      case map_of seen_urls img_url of
        None \<Rightarrow> remove_duplicates (dict_set seen_urls img_url img) rest
      | Some old \<Rightarrow>
          if score img > score old
          then remove_duplicates (dict_set seen_urls img_url img) rest
          else remove_duplicates seen_urls rest)"

definition unique_images :: "candidate list \<Rightarrow> candidate list" where
  \<comment> \<open>\<^verbatim>\<open>list(seen_urls.values())\<close> after the loop\<close>
  "unique_images imgs = map snd (remove_duplicates [] imgs)"

subsection \<open>Ranking and the walk\<close>

text \<open>
  \<^verbatim>\<open>unique_images.sort(key=lambda x: x['score'], reverse=True)\<close>: Python's sort is stable,
  also with \<^verbatim>\<open>reverse=True\<close>, so candidates of equal score keep their order. The stable
  insertion sort of the library on the negated score does the same.
\<close>

definition sort_by_score :: "candidate list \<Rightarrow> candidate list" where
  "sort_by_score imgs = sort_key (\<lambda>x. - score x) imgs"

definition MIN_ACCEPTABLE_SCORE :: int where
  "MIN_ACCEPTABLE_SCORE = 40"

definition acceptable :: "env \<Rightarrow> candidate \<Rightarrow> bool" where
  "acceptable e img_data =
     (score img_data \<ge> MIN_ACCEPTABLE_SCORE \<and> validate_image_size e (url img_data))"

fun first_acceptable :: "env \<Rightarrow> candidate list \<Rightarrow> candidate option" where
  "first_acceptable e [] = None"
| "first_acceptable e (img_data # rest) =
     (if acceptable e img_data then Some img_data else first_acceptable e rest)"

definition select_image :: "env \<Rightarrow> candidate list \<Rightarrow> candidate option" where
  "select_image e imgs =
     (if imgs = [] then None
      else first_acceptable e (sort_by_score (unique_images imgs)))"

definition scrape_article_images :: "env \<Rightarrow> string \<Rightarrow> candidate option" where
  "scrape_article_images e article_url =
     select_image e (all_images (method3 e article_url))"


section \<open>Strings\<close>

text \<open>
  \<^verbatim>\<open>str.lower\<close> on 8-bit characters: the ASCII capitals and the capitals of Latin-1 move
  by 32, every other character stays.
\<close>

definition is_upper :: "char \<Rightarrow> bool" where
  "is_upper c =
     (let n = (of_char c :: nat) in
      (65 \<le> n \<and> n \<le> 90) \<or> (192 \<le> n \<and> n \<le> 222 \<and> n \<noteq> 215))"

definition lower_char :: "char \<Rightarrow> char" where
  \<comment> \<open>adding 32 to the code of a capital sets the bit of weight 32, which is clear there\<close>
  "lower_char c =
     (if is_upper c
      then (case c of Char b0 b1 b2 b3 b4 b5 b6 b7 \<Rightarrow> Char b0 b1 b2 b3 b4 True b6 b7)
      else c)"

definition lower :: "string \<Rightarrow> string" where
  "lower s = map lower_char s"

fun startswith :: "string \<Rightarrow> string \<Rightarrow> bool" where
  "startswith s [] = True"
| "startswith [] (p # ps) = False"
| "startswith (c # cs) (p # ps) = (c = p \<and> startswith cs ps)"

definition endswith :: "string \<Rightarrow> string \<Rightarrow> bool" where
  "endswith s suffix = startswith (rev s) (rev suffix)"

fun contains :: "string \<Rightarrow> string \<Rightarrow> bool" where
  \<comment> \<open>\<^verbatim>\<open>term in s\<close>\<close>
  "contains [] t = (t = [])"
| "contains (c # cs) t = (startswith (c # cs) t \<or> contains cs t)"

definition any_in :: "string list \<Rightarrow> string \<Rightarrow> bool" where
  \<comment> \<open>\<^verbatim>\<open>any(term in s for term in terms)\<close>\<close>
  "any_in terms s = list_ex (contains s) terms"

fun join :: "string \<Rightarrow> string list \<Rightarrow> string" where
  \<comment> \<open>\<^verbatim>\<open>sep.join(parts)\<close>\<close>
  "join sep [] = []"
| "join sep [p] = p"
| "join sep (p # q # ps) = p @ sep @ join sep (q # ps)"

fun split_first :: "char \<Rightarrow> string \<Rightarrow> (string \<times> string) option" where
  \<comment> \<open>the parts before and after the first occurrence of a character, if there is one\<close>
  "split_first d [] = None"
| "split_first d (c # cs) =
     (if c = d then Some ([], cs)
      else (case split_first d cs of None \<Rightarrow> None | Some (a, b) \<Rightarrow> Some (c # a, b)))"

fun split_on :: "char \<Rightarrow> string \<Rightarrow> string list" where
  \<comment> \<open>\<^verbatim>\<open>s.split(d)\<close>\<close>
  "split_on d [] = [[]]"
| "split_on d (c # cs) =
     (if c = d then [] # split_on d cs
      else (case split_on d cs of [] \<Rightarrow> [[c]] | p # ps \<Rightarrow> (c # p) # ps))"

section \<open>The exclusion patterns\<close>

text \<open>
  The regular expressions of \<^verbatim>\<open>self.exclude_patterns\<close> use literal characters, the class
  \<^verbatim>\<open>[_-]\<close>, \<^verbatim>\<open>\d+\<close> and \<^verbatim>\<open>.*\<close> only. A pattern is a sequence of items, each an atom
  taken once or any number of times. The expression is compiled with \<^verbatim>\<open>re.IGNORECASE\<close>:
  a literal, always a lower-case letter, a digit or a sign here, matches a character whose
  lower-case form it is. The dot matches every character but the newline.
\<close>

datatype atom = Lit char | OneOf string | Digit | AnyChar

datatype item = One atom | Star atom

fun atom_matches :: "atom \<Rightarrow> char \<Rightarrow> bool" where
  "atom_matches (Lit p) c = (lower_char c = p)"
| "atom_matches (OneOf ps) c = (c \<in> set ps)"
| "atom_matches Digit c = (48 \<le> (of_char c :: nat) \<and> (of_char c :: nat) \<le> 57)"
| "atom_matches AnyChar c = (c \<noteq> CHR 0x0A)"

fun match_here :: "item list \<Rightarrow> string \<Rightarrow> bool" where
  \<comment> \<open>some prefix of the string matches the pattern\<close>
  "match_here [] s = True"
| "match_here (One a # rest) [] = False"
| "match_here (One a # rest) (c # cs) = (atom_matches a c \<and> match_here rest cs)"
| "match_here (Star a # rest) [] = match_here rest []"
| "match_here (Star a # rest) (c # cs) =
     (match_here rest (c # cs) \<or> (atom_matches a c \<and> match_here (Star a # rest) cs))"

fun regex_search :: "item list list \<Rightarrow> string \<Rightarrow> bool" where
  \<comment> \<open>\<^verbatim>\<open>re.compile('|'.join(patterns)).search(s)\<close> as a truth value\<close>
  "regex_search ps [] = list_ex (\<lambda>p. match_here p []) ps"
| "regex_search ps (c # cs) = (list_ex (\<lambda>p. match_here p (c # cs)) ps \<or> regex_search ps cs)"

definition lit :: "string \<Rightarrow> item list" where
  "lit s = map (\<lambda>c. One (Lit c)) s"

definition digits :: "item list" where
  \<comment> \<open>\<^verbatim>\<open>\d+\<close>\<close>
  "digits = [One Digit, Star Digit]"

definition exclude_patterns :: "item list list" where
  "exclude_patterns =
     [lit ''logo'', lit ''icon'', lit ''favicon'', lit ''avatar'', lit ''profile'',
      lit ''advertisement'', lit ''ad'' @ [One (OneOf ''_-'')], lit ''banner'', lit ''widget'',
      lit ''social'', lit ''share'', lit ''button'', lit ''arrow'', lit ''play'',
      lit ''thumbnail'' @ [Star AnyChar] @ lit ''small'',
      lit ''thumb'' @ [Star AnyChar] @ digits @ lit ''x'' @ digits,
      digits @ lit ''x'' @ digits @ [Star AnyChar] @ lit ''thumb'',
      lit ''facebook.com/tr'', lit ''google-analytics'', lit ''googletagmanager'',
      lit ''doubleclick'', lit ''googlesyndication'', lit ''adsystem'',
      lit ''pixel?'', lit ''track?'', lit ''beacon?'', lit ''analytics'',
      lit ''1x1.gif'', lit ''transparent.gif'', lit ''spacer.gif'']"

definition exclude_regex_search :: "string \<Rightarrow> bool" where
  "exclude_regex_search s = regex_search exclude_patterns s"


section \<open>urlparse and Path.suffix\<close>

text \<open>
  \<^verbatim>\<open>urllib.parse.urlparse\<close> as in CPython 3.10, on 8-bit strings: tab, carriage return and
  newline are removed; a prefix of scheme characters before the first colon is the scheme;
  after \<^verbatim>\<open>//\<close> the network location runs up to the next slash, question mark or hash;
  then the fragment and the query are split off, and for the schemes with parameters the
  parameters of the last path segment. The one exception, ValueError for a network location
  with an unmatched square bracket, is the value \<open>None\<close>. Later versions differ on unusual
  URLs: they strip leading spaces and control characters, take a scheme only when it starts
  with a letter, and raise ValueError for a bracketed host that is no IP address. The URLs
  of the examples below parse the same in all of them.
\<close>

record parse_result =
  scheme :: string
  netloc :: string
  path :: string
  params :: string
  query :: string
  fragment :: string

definition scheme_chars :: string where
  "scheme_chars = ''abcdefghijklmnopqrstuvwxyzABCDEFGHIJKLMNOPQRSTUVWXYZ0123456789+-.''"

definition uses_params :: "string list" where
  "uses_params = [[], ''ftp'', ''hdl'', ''prospero'', ''http'', ''imap'', ''https'', ''shttp'',
                  ''rtsp'', ''rtspu'', ''sip'', ''sips'', ''mms'', ''sftp'', ''tel'']"

definition split_scheme :: "string \<Rightarrow> string \<times> string" where
  "split_scheme u =
     (case split_first CHR '':'' u of
        None \<Rightarrow> ([], u)
      | Some (pre, rest) \<Rightarrow>
          if pre \<noteq> [] \<and> list_all (\<lambda>c. c \<in> set scheme_chars) pre then (lower pre, rest)
          else ([], u))"

definition netloc_end :: "char \<Rightarrow> bool" where
  "netloc_end c = (c \<in> set ''/?#'')"

definition split_netloc :: "string \<Rightarrow> string \<times> string" where
  "split_netloc u =
     (if take 2 u = ''//''
      then (takeWhile (\<lambda>c. \<not> netloc_end c) (drop 2 u), dropWhile (\<lambda>c. \<not> netloc_end c) (drop 2 u))
      else ([], u))"

definition invalid_ipv6 :: "string \<Rightarrow> bool" where
  "invalid_ipv6 nl =
     ((CHR ''['' \<in> set nl \<and> CHR '']'' \<notin> set nl) \<or> (CHR '']'' \<in> set nl \<and> CHR ''['' \<notin> set nl))"

definition split_opt :: "char \<Rightarrow> string \<Rightarrow> string \<times> string" where
  \<comment> \<open>\<^verbatim>\<open>if d in url: url, x = url.split(d, 1)\<close>, and the empty string otherwise\<close>
  "split_opt d u = (case split_first d u of None \<Rightarrow> (u, []) | Some (a, b) \<Rightarrow> (a, b))"

definition splitparams :: "string \<Rightarrow> string \<times> string" where
  \<comment> \<open>the first semicolon after the last slash, or the first semicolon when there is no slash\<close>
  "splitparams u =
     (let last_seg = rev (takeWhile (\<lambda>c. c \<noteq> CHR ''/'') (rev u));
          dir = take (length u - length last_seg) u
      in case split_first CHR '';'' last_seg of
           None \<Rightarrow> (u, [])
         | Some (a, b) \<Rightarrow> (dir @ a, b))"

definition urlparse :: "string \<Rightarrow> parse_result option" where
  "urlparse u0 =
     (let u1 = filter (\<lambda>c. c \<notin> set [CHR 0x09, CHR 0x0D, CHR 0x0A]) u0;
          (sch, u2) = split_scheme u1;
          (nl, u3) = split_netloc u2
      in if invalid_ipv6 nl then None
         else
           (let (u4, frag) = split_opt CHR ''#'' u3;
                (u5, qry) = split_opt CHR ''?'' u4;
                (pth, prm) = (if sch \<in> set uses_params \<and> CHR '';'' \<in> set u5
                              then splitparams u5 else (u5, []))
            in Some \<lparr>scheme = sch, netloc = nl, path = pth, params = prm,
                     query = qry, fragment = frag\<rparr>))"

text \<open>
  \<^verbatim>\<open>Path(p).suffix\<close> of pathlib on POSIX: the path is split at slashes, empty parts and
  single dots are dropped, the name is the last part; the suffix starts at the last dot of
  the name when that dot is neither its first nor its last character.
\<close>

definition path_name :: "string \<Rightarrow> string" where
  "path_name p =
     (case rev (filter (\<lambda>part. part \<noteq> [] \<and> part \<noteq> ''.'') (split_on CHR ''/'' p)) of
        [] \<Rightarrow> []
      | name # _ \<Rightarrow> name)"

definition path_suffix :: "string \<Rightarrow> string" where
  "path_suffix p =
     (let name = path_name p;
          ext = rev (takeWhile (\<lambda>c. c \<noteq> CHR ''.'') (rev name))
      in if CHR ''.'' \<in> set name \<and> ext \<noteq> [] \<and> length ext + 1 < length name
         then CHR ''.'' # ext else [])"


section \<open>The URL filter\<close>

definition tracking_domains :: "string list" where
  "tracking_domains =
     [''facebook.com'', ''google-analytics.com'', ''googletagmanager.com'',
      ''doubleclick.net'', ''googlesyndication.com'', ''googleadservices.com'',
      ''outbrain.com'', ''taboola.com'', ''amazon-adsystem.com'']"

definition tracking_patterns :: "string list" where
  "tracking_patterns =
     [''facebook.com/tr'', ''google-analytics.com'', ''/pixel?'', ''/track?'',
      ''/beacon?'', ''/analytics?'', ''googletagmanager.com'']"

definition valid_extensions :: "string list" where
  "valid_extensions = [''.jpg'', ''.jpeg'', ''.png'', ''.webp'', ''.gif'', ''.bmp'', ''.svg'']"

definition image_cdns :: "string list" where
  "image_cdns = [''static.toiimg.com'', ''images.'', ''img.'', ''cdn.'', ''assets.'']"

text \<open>
  \<^verbatim>\<open>_should_exclude_image_url\<close>. The result is \<open>None\<close> when \<^verbatim>\<open>urlparse\<close> raises, which the
  method does not catch.
\<close>

definition should_exclude_image_url :: "string \<Rightarrow> bool option" where
  "should_exclude_image_url img_url =
     (if exclude_regex_search img_url then Some True
      else
        (case urlparse img_url of
           None \<Rightarrow> None
         | Some parsed_url \<Rightarrow>
             if any_in tracking_domains (lower (netloc parsed_url)) then Some True
             else if any_in tracking_patterns (lower img_url) then Some True
             else if any_in [''fbclid'', ''gclid'', ''utm_'', ''pixel''] (lower (query parsed_url))
               then Some True
             else if contains img_url ''width=1'' \<or> contains img_url ''height=1''
                     \<or> contains img_url ''1x1''
               then Some True
             else
               (let path_ext = lower (path_suffix (path parsed_url));
                    is_image_cdn = any_in image_cdns (lower (netloc parsed_url))
                in if path_ext = [] \<and> \<not> is_image_cdn then Some True
                   else if path_ext \<noteq> [] \<and> path_ext \<notin> set valid_extensions then Some True
                   else Some False)))"


section \<open>The relevance score\<close>

text \<open>
  What the scoring reads of an image element of the parsed document: its \<^verbatim>\<open>alt\<close> attribute
  (the empty string when absent), its class list, its chain of parents, each with a class
  list, an \<^verbatim>\<open>id\<close> (empty when absent) and a parent of its own, and the text of the caption
  that \<^verbatim>\<open>analyze_image_context\<close> looks up: the first \<^verbatim>\<open>figcaption\<close>, \<^verbatim>\<open>caption\<close> or \<^verbatim>\<open>div\<close>
  inside the nearest \<^verbatim>\<open>figure\<close> or \<^verbatim>\<open>div\<close> ancestor, \<open>None\<close> when one of the two is missing or
  the lookup raises (the bare \<^verbatim>\<open>except\<close> passes).
\<close>

datatype element = Element (el_class: "string list") (el_id: string) (el_parent: "element option")

record img_tag =
  alt :: string
  classes :: "string list"
  parent :: "element option"
  caption_text :: "string option"

fun context_walk :: "nat \<Rightarrow> element option \<Rightarrow> int" where
  \<comment> \<open>the loop \<^verbatim>\<open>for _ in range(3)\<close> of \<^verbatim>\<open>analyze_image_context\<close>, with the rounds left\<close>
  "context_walk 0 p = 0"
| "context_walk (Suc n) None = context_walk n None"
| "context_walk (Suc n) (Some p) =
     (let parent_classes = lower (join '' '' (el_class p));
          parent_id = lower (el_id p)
      in if any_in [''article'', ''content'', ''story'', ''body'', ''post'', ''main'', ''entry'']
              (parent_classes @ parent_id) then 15
         else if any_in [''header'', ''nav'', ''footer'', ''sidebar'', ''menu'', ''ad'', ''widget'']
              (parent_classes @ parent_id) then - 10
         else context_walk n (el_parent p))"

definition analyze_image_context :: "img_tag option \<Rightarrow> int" where
  "analyze_image_context img =
     (case img of
        None \<Rightarrow> 0
      | Some t \<Rightarrow>
          (let context_score = context_walk 3 (parent t);
               context_score = context_score +
                 (case caption_text t of
                    None \<Rightarrow> 0
                  | Some caption \<Rightarrow> if length (lower caption) > 10 then 10 else 0)
           in max 0 context_score))"

definition source_prior :: "string \<Rightarrow> int" where
  "source_prior source_method =
     (if source_method = ''trafilatura_main'' then 30
      else if source_method = ''newspaper_top'' then 25
      else if source_method = ''trafilatura'' then 15
      else if source_method = ''newspaper'' then 10
      else if source_method = ''soup'' then 5
      else 0)"

definition url_score :: "string \<Rightarrow> int" where
  \<comment> \<open>the signals read from the lower-cased URL\<close>
  "url_score url_lower =
     (if any_in [''featured'', ''main'', ''hero'', ''cover'', ''article''] url_lower then 20 else 0)
     + (if any_in [''large'', ''big'', ''full'', ''original''] url_lower then 12 else 0)
     + (if contains url_lower ''wp-content/uploads'' then 10 else 0)
     + (if any_in [''photo'', ''image'', ''pic'', ''img''] url_lower then 8 else 0)
     - (if any_in [''logo'', ''brand'', ''header'', ''masthead'', ''watermark'',
                   ''signature'', ''emblem'', ''badge'', ''seal'', ''mark''] url_lower
        then 25 else 0)
     - (if any_in [''toi'', ''timesofindia'', ''company'', ''corp''] url_lower then 15 else 0)
     - (if contains url_lower ''facebook.com/tr'' \<or> contains url_lower ''/tr?'' then 50 else 0)
     - (if any_in [''analytics'', ''tracking'', ''pixel?'', ''beacon?''] url_lower then 40 else 0)
     - (if any_in [''thumb'', ''small'', ''mini'', ''icon''] url_lower then 15 else 0)
     - (if any_in [''ad'', ''banner'', ''widget'', ''sidebar''] url_lower then 20 else 0)
     - (if any_in [''social'', ''share'', ''profile'', ''avatar''] url_lower then 10 else 0)
     - (if any_in [''150x'', ''200x'', ''100x'', ''50x''] url_lower then 12 else 0)
     - (if any_in [''x150'', ''x200'', ''x100'', ''x50''] url_lower then 12 else 0)"

definition tag_score :: "img_tag option \<Rightarrow> int" where
  \<comment> \<open>the block \<^verbatim>\<open>if img_tag:\<close> on the alt text, the classes and the parent\<close>
  "tag_score img =
     (case img of
        None \<Rightarrow> 0
      | Some t \<Rightarrow>
          (let alt_text = lower (alt t);
               cls = lower (join '' '' (classes t))
           in (if alt_text \<noteq> [] \<and> any_in [''article'', ''story'', ''news'', ''main'', ''photo''] alt_text
               then 10 else 0)
              - (if alt_text \<noteq> [] \<and> any_in [''logo'', ''icon'', ''button'', ''arrow''] alt_text
                 then 15 else 0)
              + (if contains cls ''featured'' \<or> contains cls ''hero'' \<or> contains cls ''main''
                 then 15 else 0)
              - (if any_in [''sidebar'', ''widget'', ''ad'', ''banner''] cls then 20 else 0)
              + (case parent t of
                   None \<Rightarrow> 0
                 | Some p \<Rightarrow>
                     (let parent_classes = lower (join '' '' (el_class p))
                      in (if contains parent_classes ''article'' \<or> contains parent_classes ''content''
                          then 10 else 0)
                         - (if contains parent_classes ''sidebar'' \<or> contains parent_classes ''footer''
                            then 15 else 0)))))"

definition extension_score :: "string \<Rightarrow> int" where
  "extension_score url_lower =
     (if endswith url_lower ''.jpg'' \<or> endswith url_lower ''.jpeg'' then 5
      else if endswith url_lower ''.png'' then 2
      else if endswith url_lower ''.gif'' then - 5
      else 0)"

text \<open>
  \<^verbatim>\<open>score_image_relevance(img_url, img_tag, source_method, article_content)\<close>. The method
  calls \<^verbatim>\<open>urlparse(img_url)\<close> and does not use the result; when the call raises, so does the
  method, and the result is \<open>None\<close>.
\<close>

definition raw_score :: "string \<Rightarrow> img_tag option \<Rightarrow> string \<Rightarrow> int" where
  \<comment> \<open>the value of \<^verbatim>\<open>score\<close> before the final clamp\<close>
  "raw_score img_url img source_method =
     50 + source_prior source_method + url_score (lower img_url) + tag_score img
     + analyze_image_context img + extension_score (lower img_url)"

definition score_image_relevance ::
    "string \<Rightarrow> img_tag option \<Rightarrow> string \<Rightarrow> string \<Rightarrow> int option" where
  "score_image_relevance img_url img source_method article_content =
     (case urlparse img_url of
        None \<Rightarrow> None
      | Some parsed_url \<Rightarrow> Some (max 0 (min 100 (raw_score img_url img source_method))))"


section \<open>extract_opengraph_images\<close>

text \<open>
  What the method reads of the parsed page: the \<^verbatim>\<open>content\<close> attribute of the first
  \<^verbatim>\<open>og:image\<close> meta tag and of the first \<^verbatim>\<open>twitter:image\<close> meta tag (\<open>None\<close> when the tag
  or the attribute is missing), and for every JSON-LD script what \<^verbatim>\<open>json.loads\<close> makes of it:
  a value, a JSONDecodeError, or another exception (as for a script without a string). Of a
  JSON number only its truth value is kept. A JSON object is the dictionary loaded, with
  distinct keys.
\<close>

datatype json = JNull | JBool bool | JNumber bool | JString string
  | JArray "json list" | JObject "(string \<times> json) list"

datatype ld_script = Loaded json | JSONDecodeError | OtherException

record soup =
  og_image :: "string option"
  twitter_image :: "string option"
  ld_json :: "ld_script list"

fun truthy :: "json \<Rightarrow> bool" where
  "truthy JNull = False"
| "truthy (JBool b) = b"
| "truthy (JNumber nonzero) = nonzero"
| "truthy (JString s) = (s \<noteq> [])"
| "truthy (JArray xs) = (xs \<noteq> [])"
| "truthy (JObject kvs) = (kvs \<noteq> [])"

definition dict_get :: "(string \<times> json) list \<Rightarrow> string \<Rightarrow> json \<Rightarrow> json" where
  \<comment> \<open>\<^verbatim>\<open>d.get(key, default)\<close>\<close>
  "dict_get kvs k dflt = (case map_of kvs k of None \<Rightarrow> dflt | Some v \<Rightarrow> v)"

definition first_of_list :: "json \<Rightarrow> json" where
  \<comment> \<open>\<^verbatim>\<open>if isinstance(schema_image, list): schema_image = schema_image[0]\<close>, on a truthy value\<close>
  "first_of_list j = (case j of JArray (x # xs) \<Rightarrow> x | _ \<Rightarrow> j)"

definition url_of_dict :: "json \<Rightarrow> json" where
  \<comment> \<open>\<^verbatim>\<open>if isinstance(schema_image, dict): schema_image = schema_image.get('url', schema_image.get('@id'))\<close>\<close>
  "url_of_dict j =
     (case j of JObject kvs \<Rightarrow> dict_get kvs ''url'' (dict_get kvs ''@id'' JNull) | _ \<Rightarrow> j)"

definition schema_image_of :: "json \<Rightarrow> string option" where
  \<comment> \<open>the string that the schema block resolves and scores, if it reaches one\<close>
  "schema_image_of data =
     (case data of
        JObject kvs \<Rightarrow>
          (let schema_image = dict_get kvs ''image'' JNull
           in if truthy schema_image
              then (case url_of_dict (first_of_list schema_image) of
                      JString s \<Rightarrow> Some s
                    | _ \<Rightarrow> None)
              else None)
      | _ \<Rightarrow> None)"

text \<open>
  One meta image: the URL is resolved with \<^verbatim>\<open>urljoin\<close>, which is an input of the model
  (\<open>None\<close> when it raises), filtered, scored, and appended with the bonus added to the
  score that \<^verbatim>\<open>score_image_relevance\<close> returned. \<open>None\<close> is an exception on the way.
\<close>

definition meta_candidate ::
    "(string \<Rightarrow> string \<Rightarrow> string option) \<Rightarrow> string \<Rightarrow> string \<Rightarrow> string \<Rightarrow> int
       \<Rightarrow> candidate list option" where
  "meta_candidate urljoin base content source_method bonus =
     (case urljoin base content of
        None \<Rightarrow> None
      | Some img_url \<Rightarrow>
          (case should_exclude_image_url img_url of
             None \<Rightarrow> None
           | Some True \<Rightarrow> Some []
           | Some False \<Rightarrow>
               (case score_image_relevance img_url None source_method [] of
                  None \<Rightarrow> None
                | Some sc \<Rightarrow>
                    Some [\<lparr>url = img_url, score = sc + bonus, source = source_method\<rparr>])))"

fun schema_candidates ::
    "(string \<Rightarrow> string \<Rightarrow> string option) \<Rightarrow> string \<Rightarrow> ld_script list \<Rightarrow> candidate list" where
  \<comment> \<open>the loop over the scripts inside the outer \<^verbatim>\<open>try\<close>: an exception other than
      JSONDecodeError ends the loop and keeps what was appended before\<close>
  "schema_candidates urljoin base [] = []"
| "schema_candidates urljoin base (JSONDecodeError # scripts) =
     schema_candidates urljoin base scripts"
| "schema_candidates urljoin base (OtherException # scripts) = []"
| "schema_candidates urljoin base (Loaded data # scripts) =
     (case schema_image_of data of
        None \<Rightarrow> schema_candidates urljoin base scripts
      | Some s \<Rightarrow>
          (case meta_candidate urljoin base s ''schema'' 22 of
             None \<Rightarrow> []
           | Some found \<Rightarrow> found @ schema_candidates urljoin base scripts))"

definition meta_tag ::
    "(string \<Rightarrow> string \<Rightarrow> string option) \<Rightarrow> string \<Rightarrow> string option \<Rightarrow> string \<Rightarrow> int
       \<Rightarrow> candidate list option" where
  \<comment> \<open>\<^verbatim>\<open>if tag and tag.get('content'): ...\<close>\<close>
  "meta_tag urljoin base content source_method bonus =
     (case content of
        None \<Rightarrow> Some []
      | Some c \<Rightarrow> if c = [] then Some [] else meta_candidate urljoin base c source_method bonus)"

definition extract_opengraph_images ::
    "(string \<Rightarrow> string \<Rightarrow> string option) \<Rightarrow> soup \<Rightarrow> string \<Rightarrow> candidate list option" where
  "extract_opengraph_images urljoin sp base =
     (case meta_tag urljoin base (og_image sp) ''opengraph'' 25 of
        None \<Rightarrow> None
      | Some og \<Rightarrow>
          (case meta_tag urljoin base (twitter_image sp) ''twitter_card'' 20 of
             None \<Rightarrow> None
           | Some tw \<Rightarrow> Some (og @ tw @ schema_candidates urljoin base (ld_json sp))))"


section \<open>download_image\<close>

text \<open>
  A decoded image, as far as the conversion to JPEG reads it: the mode, the size, the pixels
  in row order, each a list of band values from 0 to 255 (one palette index in mode P), and
  for mode P the palette, each entry with its red, green and blue values and the alpha that
  the transparency information of the image gives it.
\<close>

record image =
  im_mode :: string
  im_size :: "nat \<times> nat"
  im_pixels :: "nat list list"
  im_palette :: "nat list list"

text \<open>
  The operations of the Pillow library that \<^verbatim>\<open>download_image\<close> calls, after Pillow's
  documentation. \<^verbatim>\<open>Image.new\<close> fills an image with one colour. \<^verbatim>\<open>convert('RGBA')\<close> of a
  palette image looks every index up. \<^verbatim>\<open>split()[-1]\<close> is the last band. \<^verbatim>\<open>paste\<close> with a
  mask blends every band of the pasted image into the image below it, with the weights
  \<open>mask\<close> and \<open>255 - mask\<close> and Pillow's rounded division by 255; without a mask it
  copies. An image in mode LA is pasted with its luminance in the three colour bands.
\<close>

definition Image_new :: "string \<Rightarrow> nat \<times> nat \<Rightarrow> nat list \<Rightarrow> image" where
  "Image_new m sz colour =
     \<lparr>im_mode = m, im_size = sz, im_pixels = replicate (fst sz * snd sz) colour, im_palette = []\<rparr>"

definition palette_lookup :: "nat list list \<Rightarrow> nat list \<Rightarrow> nat list" where
  "palette_lookup pal p =
     (case p of
        [] \<Rightarrow> [0, 0, 0, 255]
      | i # _ \<Rightarrow> if i < length pal then pal ! i else [0, 0, 0, 255])"

definition convert_RGBA :: "image \<Rightarrow> image" where
  "convert_RGBA img =
     img\<lparr>im_mode := ''RGBA'', im_pixels := map (palette_lookup (im_palette img)) (im_pixels img),
         im_palette := []\<rparr>"

definition last_band :: "image \<Rightarrow> nat list" where
  "last_band img = map (\<lambda>p. last (0 # p)) (im_pixels img)"

definition div255 :: "nat \<Rightarrow> nat" where
  "div255 a = (let tmp = a + 128 in ((tmp div 256) + tmp) div 256)"

definition blend8 :: "nat \<Rightarrow> nat \<Rightarrow> nat \<Rightarrow> nat" where
  "blend8 matte below pasted = div255 (below * (255 - matte) + pasted * matte)"

definition colour_bands :: "string \<Rightarrow> nat list \<Rightarrow> nat list" where
  "colour_bands m p = (if m = ''LA'' then replicate 3 (hd (p @ [0])) else take 3 p)"

definition paste :: "image \<Rightarrow> image \<Rightarrow> nat list option \<Rightarrow> image" where
  "paste below img matte =
     below\<lparr>im_pixels :=
       (case matte of
          None \<Rightarrow> map (colour_bands (im_mode img)) (im_pixels img)
        | Some ms \<Rightarrow>
            map (\<lambda>(b, p, m). map2 (blend8 m) b (colour_bands (im_mode img) p))
              (zip (im_pixels below) (zip (im_pixels img) ms)))\<rparr>"

text \<open>
  What \<^verbatim>\<open>download_image\<close> needs beside the session: \<^verbatim>\<open>Image.open\<close> on the bytes downloaded
  and \<^verbatim>\<open>img.convert('RGB')\<close> for the other modes, both inputs of the model, \<open>None\<close> when
  they raise.
\<close>

record pillow =
  Image_open :: "bytes \<Rightarrow> image option"
  convert_RGB :: "image \<Rightarrow> image option"

definition to_rgb :: "pillow \<Rightarrow> image \<Rightarrow> image option" where
  \<comment> \<open>the body of \<^verbatim>\<open>with Image.open(image_data) as img:\<close> up to \<^verbatim>\<open>img.save\<close>\<close>
  "to_rgb pil img =
     (if im_mode img \<in> set [''RGBA'', ''LA'', ''P''] then
        (let rgb_img = Image_new ''RGB'' (im_size img) [255, 255, 255];
             img1 = (if im_mode img = ''P'' then convert_RGBA img else img);
             matte = (if im_mode img1 \<in> set [''RGBA'', ''LA''] then Some (last_band img1) else None)
         in Some (paste rgb_img img1 matte))
      else if im_mode img \<noteq> ''RGB'' then convert_RGB pil img
      else Some img)"

fun response_content :: "(net_error + bytes) list \<Rightarrow> net_error + bytes" where
  \<comment> \<open>\<^verbatim>\<open>response.content\<close>: the whole body\<close>
  "response_content [] = Inr []"
| "response_content (Inl e # rest) = Inl e"
| "response_content (Inr chunk # rest) =
     (case response_content rest of Inl e \<Rightarrow> Inl e | Inr more_bytes \<Rightarrow> Inr (chunk @ more_bytes))"

text \<open>
  \<^verbatim>\<open>download_image\<close>, up to the image that it hands to \<^verbatim>\<open>img.save(output_path, 'JPEG',
  quality=90, optimize=True)\<close>; \<open>None\<close> where the method has returned False before. The
  JPEG encoder and the file are not part of the model.
\<close>

definition download_image :: "env \<Rightarrow> pillow \<Rightarrow> string \<Rightarrow> image option" where
  "download_image e pil img_url =
     (case session_get e img_url of
        Inl err \<Rightarrow> None
      | Inr response \<Rightarrow>
          if raise_for_status response then None
          else (case response_content (iter_content response) of
                  Inl err \<Rightarrow> None
                | Inr image_data \<Rightarrow>
                    (case Image_open pil image_data of
                       None \<Rightarrow> None
                     | Some img \<Rightarrow> to_rgb pil img)))"


section \<open>Notions used in the proofs about the selection\<close>

text \<open>
  \<open>first_best c imgs\<close>: the candidate \<open>c\<close> stands in \<open>imgs\<close> at a position where every
  earlier candidate of the same URL has a strictly lower score and every later one has a
  score that is not higher.
\<close>

definition first_best :: "candidate \<Rightarrow> candidate list \<Rightarrow> bool" where
  "first_best c imgs =
     (\<exists>ys zs. imgs = ys @ c # zs
        \<and> (\<forall>d \<in> set ys. url d = url c \<longrightarrow> score d < score c)
        \<and> (\<forall>d \<in> set zs. url d = url c \<longrightarrow> score d \<le> score c))"

text \<open>The distinct elements of a list, in the order of their first occurrences.\<close>

definition first_occurrences :: "'a list \<Rightarrow> 'a list" where
  "first_occurrences xs = rev (remdups (rev xs))"

text \<open>
  The invariant of the loop over \<^verbatim>\<open>all_images\<close>, after the candidates \<open>processed\<close>: the keys of
  \<^verbatim>\<open>seen_urls\<close> are the URLs seen, in first-seen order, and every value is the first best
  candidate of its key.
\<close>

definition seen_inv :: "(string \<times> candidate) list \<Rightarrow> candidate list \<Rightarrow> bool" where
  "seen_inv seen_urls processed =
     (map fst seen_urls = first_occurrences (map url processed)
      \<and> (\<forall>(k, c) \<in> set seen_urls. url c = k \<and> first_best c processed))"



section \<open>Notions used in the statements about the validator\<close>




section \<open>Example environments\<close>

text \<open>
  \<open>offline\<close>: every request fails and every extraction method returns nothing.
  \<open>traf_only s\<close>: trafilatura finds one image of score \<open>s\<close>. \<open>news_high\<close>: trafilatura
  finds nothing and newspaper one image of score 90. The others answer the HEAD and GET
  requests of the validator in one particular way each.
\<close>

definition offline :: env where
  "offline = \<lparr>session_head = (\<lambda>u. Inl RequestException),
              session_get = (\<lambda>u. Inl RequestException),
              image_size = (\<lambda>d. None),
              extract_images_trafilatura = (\<lambda>u. []),
              extract_images_newspaper = (\<lambda>u. []),
              extract_images_beautifulsoup = (\<lambda>u. [])\<rparr>"




definition tiny_image :: env where
  "tiny_image = offline\<lparr>session_head := (\<lambda>u. Inr \<lparr>content_length = None\<rparr>),
                        session_get := (\<lambda>u. Inr \<lparr>status_code = 200, iter_content = [Inr ''GIF89a'']\<rparr>),
                        image_size := (\<lambda>d. Some (1, 1))\<rparr>"

definition undecodable :: env where
  "undecodable = tiny_image\<lparr>image_size := (\<lambda>d. None)\<rparr>"





section \<open>Notions used in the statements about the scorer and the filter\<close>

text \<open>The source methods for which \<^verbatim>\<open>score_image_relevance\<close> has a branch.\<close>

definition recognized_methods :: "string list" where
  "recognized_methods =
     [''trafilatura_main'', ''newspaper_top'', ''trafilatura'', ''newspaper'', ''soup'']"

text \<open>The search for one pattern of the alternation.\<close>

definition search_one :: "item list \<Rightarrow> string \<Rightarrow> bool" where
  "search_one p s = regex_search [p] s"

text \<open>
  \<^verbatim>\<open>urljoin\<close> on the references of the examples, which are absolute and carry a network
  location: the result is the reference.
\<close>

definition urljoin_absolute :: "string \<Rightarrow> string \<Rightarrow> string option" where
  "urljoin_absolute base reference = Some reference"

definition fb_pixel_url :: string where
  "fb_pixel_url = ''https://site.com/assets/fb_pixel_tr.gif''"

definition featured_photo_url :: string where
  "featured_photo_url = ''https://cdn.example.com/featured-photo.jpg''"

definition featured_photo_page :: soup where
  "featured_photo_page = \<lparr>og_image = Some featured_photo_url, twitter_image = None, ld_json = []\<rparr>"


section \<open>Notions used in the statement about the normalization\<close>











section \<open>Properties of the merge by URL\<close>

lemma first_occurrences_snoc:
  "first_occurrences (xs @ [x]) =
     (if x \<in> set xs then first_occurrences xs else first_occurrences xs @ [x])"
  by (simp add: first_occurrences_def)

lemma distinct_first_occurrences: "distinct (first_occurrences xs)"
  by (simp add: first_occurrences_def)

lemma set_first_occurrences: "set (first_occurrences xs) = set xs"
  by (simp add: first_occurrences_def)

lemma map_fst_dict_set:
  "map fst (dict_set kvs k v) = (if k \<in> set (map fst kvs) then map fst kvs else map fst kvs @ [k])"
proof (induction kvs)
  case Nil
  then show ?case by simp
next
  case (Cons p kvs)
  obtain k' v' where p: "p = (k', v')" by (cases p)
  have mem: "k \<in> set (map fst kvs) \<longleftrightarrow> k \<in> fst ` set kvs" by simp
  show ?case using Cons.IH unfolding p by (cases "k' = k") (simp_all del: set_map)
qed

lemma set_dict_set_new:
  "k \<notin> set (map fst kvs) \<Longrightarrow> set (dict_set kvs k v) = insert (k, v) (set kvs)"
  by (induction kvs) auto

lemma set_dict_set_old:
  "distinct (map fst kvs) \<Longrightarrow> map_of kvs k = Some old \<Longrightarrow>
   set (dict_set kvs k v) = insert (k, v) (set kvs - {(k, old)})"
proof (induction kvs)
  case Nil
  then show ?case by simp
next
  case (Cons p kvs)
  obtain k' v' where p: "p = (k', v')" by (cases p)
  show ?case
  proof (cases "k' = k")
    case True
    with Cons.prems p have "v' = old" by simp
    moreover from Cons.prems p True have "(k, old) \<notin> set kvs" by force
    ultimately show ?thesis using p True by auto
  next
    case False
    with Cons.prems p have m: "map_of kvs k = Some old" and d: "distinct (map fst kvs)" by auto
    from Cons.IH [OF d m] have "set (dict_set kvs k v) = insert (k, v) (set kvs - {(k, old)})" .
    with p False show ?thesis by auto
  qed
qed

lemma first_best_snoc_other:
  assumes "first_best c processed" and "url d \<noteq> url c \<or> score d \<le> score c"
  shows "first_best c (processed @ [d])"
proof -
  from assms(1) obtain ys zs where dec: "processed = ys @ c # zs"
    and before: "\<forall>x \<in> set ys. url x = url c \<longrightarrow> score x < score c"
    and after: "\<forall>x \<in> set zs. url x = url c \<longrightarrow> score x \<le> score c"
    unfolding first_best_def by blast
  have 1: "processed @ [d] = ys @ c # (zs @ [d])" using dec by simp
  have 2: "\<forall>x \<in> set (zs @ [d]). url x = url c \<longrightarrow> score x \<le> score c"
    using after assms(2) by auto
  show ?thesis unfolding first_best_def using 1 before 2 by blast
qed

lemma first_best_snoc_new:
  assumes "\<forall>x \<in> set processed. url x = url d \<longrightarrow> score x < score d"
  shows "first_best d (processed @ [d])"
proof -
  have "processed @ [d] = processed @ d # []" by simp
  moreover have "\<forall>x \<in> set []. url x = url d \<longrightarrow> score x \<le> score d" by simp
  ultimately show ?thesis unfolding first_best_def using assms by blast
qed

lemma first_best_max:
  assumes "first_best c processed" and "x \<in> set processed" and "url x = url c"
  shows "score x \<le> score c"
proof -
  from assms(1) obtain ys zs where dec: "processed = ys @ c # zs"
    and before: "\<forall>x \<in> set ys. url x = url c \<longrightarrow> score x < score c"
    and after: "\<forall>x \<in> set zs. url x = url c \<longrightarrow> score x \<le> score c"
    unfolding first_best_def by blast
  from assms(2) dec have "x \<in> set ys \<or> x = c \<or> x \<in> set zs" by auto
  with before after assms(3) show ?thesis by force
qed

lemma first_best_mem: "first_best c processed \<Longrightarrow> c \<in> set processed"
  unfolding first_best_def by auto

lemma seen_inv_keys: "seen_inv seen_urls processed \<Longrightarrow> set (map fst seen_urls) = set (map url processed)"
  unfolding seen_inv_def by (simp only: set_first_occurrences)

lemma seen_inv_distinct: "seen_inv seen_urls processed \<Longrightarrow> distinct (map fst seen_urls)"
  unfolding seen_inv_def by (simp add: distinct_first_occurrences)

lemma seen_inv_entry:
  "seen_inv seen_urls processed \<Longrightarrow> (k, c) \<in> set seen_urls \<Longrightarrow> url c = k \<and> first_best c processed"
  unfolding seen_inv_def by blast

lemma seen_invI:
  assumes "map fst seen_urls = first_occurrences (map url processed)"
    and "\<And>k c. (k, c) \<in> set seen_urls \<Longrightarrow> url c = k \<and> first_best c processed"
  shows "seen_inv seen_urls processed"
  unfolding seen_inv_def using assms by blast

lemma map_of_key_mem: "map_of kvs k = Some v \<Longrightarrow> k \<in> set (map fst kvs)"
  by (induction kvs) (auto split: if_splits)

lemma map_of_None_key: "map_of kvs k = None \<Longrightarrow> k \<notin> set (map fst kvs)"
  by (induction kvs) (auto split: if_splits)

lemma distinct_map_of_unique:
  "distinct (map fst kvs) \<Longrightarrow> map_of kvs k = Some old \<Longrightarrow> (k, c) \<in> set kvs \<Longrightarrow> c = old"
proof -
  assume d: "distinct (map fst kvs)" and m: "map_of kvs k = Some old" and kc: "(k, c) \<in> set kvs"
  from d kc have "map_of kvs k = Some c" by (rule map_of_is_SomeI)
  with m show "c = old" by simp
qed

lemma seen_inv_step_new:
  assumes inv: "seen_inv seen_urls processed" and new: "map_of seen_urls (url img) = None"
  shows "seen_inv (dict_set seen_urls (url img) img) (processed @ [img])"
proof (rule seen_invI)
  from new have notin: "url img \<notin> set (map fst seen_urls)" by (rule map_of_None_key)
  then have fresh: "url img \<notin> set (map url processed)" using seen_inv_keys [OF inv] by simp
  from inv have keys: "map fst seen_urls = first_occurrences (map url processed)"
    unfolding seen_inv_def by blast
  show "map fst (dict_set seen_urls (url img) img) = first_occurrences (map url (processed @ [img]))"
    using notin fresh keys by (simp add: map_fst_dict_set first_occurrences_snoc del: set_map)
  fix k c assume kc: "(k, c) \<in> set (dict_set seen_urls (url img) img)"
  then have "(k, c) = (url img, img) \<or> (k, c) \<in> set seen_urls"
    using set_dict_set_new [OF notin, of img] by simp
  then show "url c = k \<and> first_best c (processed @ [img])"
  proof
    assume "(k, c) = (url img, img)"
    moreover have "first_best img (processed @ [img])"
    proof (rule first_best_snoc_new, intro ballI impI)
      fix x assume "x \<in> set processed" "url x = url img"
      then have "url img \<in> set (map url processed)" by (metis image_eqI set_map)
      with fresh show "score x < score img" by simp
    qed
    ultimately show ?thesis by simp
  next
    assume old: "(k, c) \<in> set seen_urls"
    from seen_inv_entry [OF inv old] have *: "url c = k" "first_best c processed" by simp_all
    from old have "k \<in> set (map fst seen_urls)" by force
    with notin have "k \<noteq> url img" by blast
    with * have "url img \<noteq> url c" by simp
    with * show ?thesis by (simp add: first_best_snoc_other)
  qed
qed

lemma seen_inv_step_better:
  assumes inv: "seen_inv seen_urls processed" and old: "map_of seen_urls (url img) = Some old"
    and better: "score img > score old"
  shows "seen_inv (dict_set seen_urls (url img) img) (processed @ [img])"
proof (rule seen_invI)
  have dist: "distinct (map fst seen_urls)" using inv by (rule seen_inv_distinct)
  from old have isin: "url img \<in> set (map fst seen_urls)" by (rule map_of_key_mem)
  then have seen: "url img \<in> set (map url processed)" using seen_inv_keys [OF inv] by simp
  from inv have keys: "map fst seen_urls = first_occurrences (map url processed)"
    unfolding seen_inv_def by blast
  show "map fst (dict_set seen_urls (url img) img) = first_occurrences (map url (processed @ [img]))"
    using isin seen keys by (simp add: map_fst_dict_set first_occurrences_snoc del: set_map)
  from old have mem: "(url img, old) \<in> set seen_urls" by (rule map_of_SomeD)
  from seen_inv_entry [OF inv mem] have fb_old: "url old = url img" "first_best old processed"
    by simp_all
  fix k c assume kc: "(k, c) \<in> set (dict_set seen_urls (url img) img)"
  then have "(k, c) = (url img, img) \<or> ((k, c) \<in> set seen_urls \<and> (k, c) \<noteq> (url img, old))"
    using set_dict_set_old [OF dist old, of img] by auto
  then show "url c = k \<and> first_best c (processed @ [img])"
  proof
    assume "(k, c) = (url img, img)"
    moreover have "first_best img (processed @ [img])"
    proof (rule first_best_snoc_new, intro ballI impI)
      fix x assume "x \<in> set processed" "url x = url img"
      with fb_old have "score x \<le> score old" by (simp add: first_best_max)
      with better show "score x < score img" by simp
    qed
    ultimately show ?thesis by simp
  next
    assume a: "(k, c) \<in> set seen_urls \<and> (k, c) \<noteq> (url img, old)"
    from a have kc: "(k, c) \<in> set seen_urls" by simp
    from seen_inv_entry [OF inv kc] have *: "url c = k" "first_best c processed" by simp_all
    have "k \<noteq> url img"
    proof
      assume "k = url img"
      with a distinct_map_of_unique [OF dist old] have "c = old" by blast
      with a \<open>k = url img\<close> show False by simp
    qed
    with * have "url img \<noteq> url c" by simp
    with * show ?thesis by (simp add: first_best_snoc_other)
  qed
qed

lemma seen_inv_step_keep:
  assumes inv: "seen_inv seen_urls processed" and old: "map_of seen_urls (url img) = Some old"
    and worse: "\<not> score img > score old"
  shows "seen_inv seen_urls (processed @ [img])"
proof (rule seen_invI)
  have dist: "distinct (map fst seen_urls)" using inv by (rule seen_inv_distinct)
  from old have isin: "url img \<in> set (map fst seen_urls)" by (rule map_of_key_mem)
  then have seen: "url img \<in> set (map url processed)" using seen_inv_keys [OF inv] by simp
  from inv have keys: "map fst seen_urls = first_occurrences (map url processed)"
    unfolding seen_inv_def by blast
  show "map fst seen_urls = first_occurrences (map url (processed @ [img]))"
    using seen keys by (simp add: first_occurrences_snoc del: set_map)
  fix k c assume kc: "(k, c) \<in> set seen_urls"
  from seen_inv_entry [OF inv kc] have *: "url c = k" "first_best c processed" by simp_all
  show "url c = k \<and> first_best c (processed @ [img])"
  proof (cases "k = url img")
    case True
    with kc distinct_map_of_unique [OF dist old] have "c = old" by blast
    with worse have "score img \<le> score c" by simp
    with * show ?thesis by (simp add: first_best_snoc_other)
  next
    case False
    with * have "url img \<noteq> url c" by simp
    with * show ?thesis by (simp add: first_best_snoc_other)
  qed
qed

lemma remove_duplicates_inv:
  "seen_inv seen_urls processed \<Longrightarrow> seen_inv (remove_duplicates seen_urls rest) (processed @ rest)"
proof (induction rest arbitrary: seen_urls processed)
  case Nil
  then show ?case by simp
next
  case (Cons img rest)
  show ?case
  proof (cases "map_of seen_urls (url img)")
    case None
    with Cons.prems have "seen_inv (dict_set seen_urls (url img) img) (processed @ [img])"
      by (rule seen_inv_step_new)
    from Cons.IH [OF this] None show ?thesis by simp
  next
    case (Some old)
    show ?thesis
    proof (cases "score img > score old")
      case True
      with Cons.prems Some have "seen_inv (dict_set seen_urls (url img) img) (processed @ [img])"
        by (rule seen_inv_step_better)
      from Cons.IH [OF this] Some True show ?thesis by simp
    next
      case False
      with Cons.prems Some have "seen_inv seen_urls (processed @ [img])"
        by (rule seen_inv_step_keep)
      from Cons.IH [OF this] Some False show ?thesis by simp
    qed
  qed
qed

lemma seen_inv_empty: "seen_inv [] []"
  by (simp add: seen_inv_def first_occurrences_def)

lemma remove_duplicates_seen_inv: "seen_inv (remove_duplicates [] imgs) imgs"
  using remove_duplicates_inv [OF seen_inv_empty, of imgs] by simp

lemma unique_images_urls:
  "map url (unique_images imgs) = first_occurrences (map url imgs)"
proof -
  let ?seen = "remove_duplicates [] imgs"
  have inv: "seen_inv ?seen imgs"
    by (rule remove_duplicates_seen_inv)
  have "map url (map snd ?seen) = map fst ?seen"
    unfolding map_map
  proof (rule map_cong [OF refl])
    fix p assume "p \<in> set ?seen"
    then have "(fst p, snd p) \<in> set ?seen" by simp
    from seen_inv_entry [OF inv this] show "(url \<circ> snd) p = fst p" by simp
  qed
  moreover from inv have "map fst ?seen = first_occurrences (map url imgs)"
    unfolding seen_inv_def by blast
  ultimately show ?thesis by (simp only: unique_images_def)
qed

lemma unique_images_first_best:
  assumes "c \<in> set (unique_images imgs)"
  shows "first_best c imgs"
proof -
  from assms obtain k where "(k, c) \<in> set (remove_duplicates [] imgs)"
    unfolding unique_images_def by auto
  from seen_inv_entry [OF remove_duplicates_seen_inv this] show ?thesis by simp
qed

lemma unique_images_distinct_urls: "distinct (map url (unique_images imgs))"
  by (simp only: unique_images_urls distinct_first_occurrences)

lemma unique_images_url_set: "set (map url (unique_images imgs)) = set (map url imgs)"
  by (simp only: unique_images_urls set_first_occurrences)

lemma unique_images_subset: "c \<in> set (unique_images imgs) \<Longrightarrow> c \<in> set imgs"
  by (rule first_best_mem) (rule unique_images_first_best)

text \<open>
  C4. For every list of candidates, the merged list has exactly one entry for each distinct
  URL of the input: its URLs are distinct and they are the URLs of the input. Every entry is
  a candidate of the input, and no candidate of the input with the same URL has a higher
  score.
\<close>

theorem merge_by_url_keeps_highest:
  "distinct (map url (unique_images imgs))
   \<and> set (map url (unique_images imgs)) = set (map url imgs)
   \<and> set (unique_images imgs) \<subseteq> set imgs
   \<and> (\<forall>c \<in> set (unique_images imgs). \<forall>d \<in> set imgs.
         url d = url c \<longrightarrow> score d \<le> score c)"
proof (intro conjI ballI impI subsetI)
  show "distinct (map url (unique_images imgs))" by (rule unique_images_distinct_urls)
  show "set (map url (unique_images imgs)) = set (map url imgs)"
    by (rule unique_images_url_set)
next
  fix c assume "c \<in> set (unique_images imgs)"
  then show "c \<in> set imgs" by (rule unique_images_subset)
next
  fix c d assume "c \<in> set (unique_images imgs)" "d \<in> set imgs" "url d = url c"
  then show "score d \<le> score c" by (meson first_best_max unique_images_first_best)
qed

theorem merge_by_url_keeps_highest_witness:
  "\<lparr>url = ''u'', score = 70, source = ''b''\<rparr>
     \<in> set (unique_images [\<lparr>url = ''u'', score = 50, source = ''a''\<rparr>,
                            \<lparr>url = ''u'', score = 70, source = ''b''\<rparr>])
   \<and> \<lparr>url = ''u'', score = 50, source = ''a''\<rparr>
     \<in> set [\<lparr>url = ''u'', score = 50, source = ''a''\<rparr>,
            \<lparr>url = ''u'', score = 70, source = ''b''\<rparr>]
   \<and> url \<lparr>url = ''u'', score = 50, source = ''a''\<rparr> = url \<lparr>url = ''u'', score = 70, source = ''b''\<rparr>
   \<and> score \<lparr>url = ''u'', score = 50, source = ''a''\<rparr> \<le> score \<lparr>url = ''u'', score = 70, source = ''b''\<rparr>
   \<and> unique_images [\<lparr>url = ''u'', score = 50, source = ''a''\<rparr>,
                     \<lparr>url = ''u'', score = 70, source = ''b''\<rparr>]
       = [\<lparr>url = ''u'', score = 70, source = ''b''\<rparr>]"
  using merge_by_url_keeps_highest
    [of "[\<lparr>url = ''u'', score = 50, source = ''a''\<rparr>, \<lparr>url = ''u'', score = 70, source = ''b''\<rparr>]"]
  by (simp add: unique_images_def Let_def)

text \<open>
  C10. The entry kept for a URL is the first-seen one among those of the highest score: the
  input splits at the kept entry such that every earlier candidate of the same URL has a
  strictly lower score, and every later one a score that is not higher. So a later duplicate
  of equal score never replaces the kept entry, whose source and other fields are those of
  the earlier one.
\<close>

theorem merge_by_url_keeps_first_on_ties:
  "c \<in> set (unique_images imgs) \<Longrightarrow>
   \<exists>earlier later. imgs = earlier @ c # later
     \<and> (\<forall>d \<in> set earlier. url d = url c \<longrightarrow> score d < score c)
     \<and> (\<forall>d \<in> set later. url d = url c \<longrightarrow> score d \<le> score c)"
  using unique_images_first_best [of c imgs] unfolding first_best_def by blast

theorem merge_by_url_keeps_first_on_ties_witness:
  "\<lparr>url = ''u'', score = 50, source = ''a''\<rparr>
     \<in> set (unique_images [\<lparr>url = ''u'', score = 50, source = ''a''\<rparr>,
                            \<lparr>url = ''u'', score = 50, source = ''b''\<rparr>])
   \<and> (\<exists>earlier later.
         [\<lparr>url = ''u'', score = 50, source = ''a''\<rparr>, \<lparr>url = ''u'', score = 50, source = ''b''\<rparr>]
           = earlier @ \<lparr>url = ''u'', score = 50, source = ''a''\<rparr> # later
         \<and> (\<forall>d \<in> set earlier. url d = ''u'' \<longrightarrow> score d < 50)
         \<and> (\<forall>d \<in> set later. url d = ''u'' \<longrightarrow> score d \<le> 50))
   \<and> unique_images [\<lparr>url = ''u'', score = 50, source = ''a''\<rparr>,
                     \<lparr>url = ''u'', score = 50, source = ''b''\<rparr>]
       = [\<lparr>url = ''u'', score = 50, source = ''a''\<rparr>]"
proof -
  let ?a = "\<lparr>url = ''u'', score = 50, source = ''a''\<rparr>"
  let ?b = "\<lparr>url = ''u'', score = 50, source = ''b''\<rparr>"
  have eq: "unique_images [?a, ?b] = [?a]" by (simp add: unique_images_def Let_def)
  then have mem: "?a \<in> set (unique_images [?a, ?b])" by simp
  from merge_by_url_keeps_first_on_ties [OF mem] eq mem show ?thesis by simp
qed


section \<open>Properties of the ranking and the walk\<close>

lemma sort_by_score_descending:
  "sorted_wrt (\<lambda>a b. score a \<ge> score b) (sort_by_score imgs)"
proof -
  have "sorted (map (\<lambda>x. - score x) (sort_key (\<lambda>x. - score x) imgs))"
    by (rule sorted_sort_key)
  then show ?thesis
    by (simp add: sort_by_score_def sorted_map)
qed

lemma mset_sort_by_score: "mset (sort_by_score imgs) = mset imgs"
  by (simp add: sort_by_score_def)

lemma set_sort_by_score: "set (sort_by_score imgs) = set imgs"
  by (simp add: sort_by_score_def)

lemma sort_by_score_stable:
  "filter (\<lambda>x. score x = k) (sort_by_score imgs) = filter (\<lambda>x. score x = k) imgs"
proof -
  have "filter (\<lambda>y. - score y = - k) (sort_key (\<lambda>x. - score x) imgs)
        = filter (\<lambda>y. - score y = - k) imgs"
    by (rule sort_key_stable)
  then show ?thesis by (simp add: sort_by_score_def)
qed

lemma first_acceptable_find: "first_acceptable e imgs = find (acceptable e) imgs"
  by (induction imgs) simp_all

lemma first_acceptable_None:
  "first_acceptable e imgs = None \<longleftrightarrow> (\<forall>d \<in> set imgs. \<not> acceptable e d)"
  by (induction imgs) simp_all

lemma first_acceptable_Some:
  "first_acceptable e imgs = Some c \<Longrightarrow>
   \<exists>before after. imgs = before @ c # after \<and> acceptable e c
      \<and> (\<forall>d \<in> set before. \<not> acceptable e d)"
proof (induction imgs)
  case Nil
  then show ?case by simp
next
  case (Cons x imgs)
  show ?case
  proof (cases "acceptable e x")
    case True
    with Cons.prems have "x = c" by simp
    with True have "x # imgs = [] @ c # imgs \<and> acceptable e c \<and> (\<forall>d \<in> set []. \<not> acceptable e d)"
      by simp
    then show ?thesis by blast
  next
    case False
    with Cons.prems have "first_acceptable e imgs = Some c" by simp
    from Cons.IH [OF this] obtain before after where
      "imgs = before @ c # after" "acceptable e c" "\<forall>d \<in> set before. \<not> acceptable e d"
      by blast
    with False have "x # imgs = (x # before) @ c # after \<and> acceptable e c
        \<and> (\<forall>d \<in> set (x # before). \<not> acceptable e d)"
      by simp
    then show ?thesis by blast
  qed
qed

lemma unique_images_Nil: "unique_images [] = []"
  by (simp add: unique_images_def)

text \<open>
  C5. The walk goes through the deduplicated candidates in descending order of score (a
  permutation of them, sorted by score, highest first). When it returns a candidate, that
  candidate has a score of at least 40 and passes the size validation, and no candidate
  before it in that order has both. It returns None exactly when no deduplicated candidate
  has both, which covers the empty candidate list; the result is a value in every case, no
  exception leaves the walk.
\<close>

theorem selector_returns_first_qualifying:
  "sorted_wrt (\<lambda>a b. score a \<ge> score b) (sort_by_score (unique_images imgs))
   \<and> mset (sort_by_score (unique_images imgs)) = mset (unique_images imgs)
   \<and> (\<forall>c. select_image e imgs = Some c \<longrightarrow>
         (\<exists>before after. sort_by_score (unique_images imgs) = before @ c # after
            \<and> 40 \<le> score c \<and> validate_image_size e (url c)
            \<and> (\<forall>d \<in> set before. \<not> (40 \<le> score d \<and> validate_image_size e (url d)))))
   \<and> (select_image e imgs = None \<longleftrightarrow>
         (\<forall>d \<in> set (unique_images imgs). \<not> (40 \<le> score d \<and> validate_image_size e (url d))))"
proof (intro conjI allI impI)
  show "sorted_wrt (\<lambda>a b. score a \<ge> score b) (sort_by_score (unique_images imgs))"
    by (rule sort_by_score_descending)
  show "mset (sort_by_score (unique_images imgs)) = mset (unique_images imgs)"
    by (rule mset_sort_by_score)
next
  fix c assume sel: "select_image e imgs = Some c"
  then have "first_acceptable e (sort_by_score (unique_images imgs)) = Some c"
    by (simp add: select_image_def split: if_splits)
  from first_acceptable_Some [OF this]
  show "\<exists>before after. sort_by_score (unique_images imgs) = before @ c # after
            \<and> 40 \<le> score c \<and> validate_image_size e (url c)
            \<and> (\<forall>d \<in> set before. \<not> (40 \<le> score d \<and> validate_image_size e (url d)))"
    by (simp add: acceptable_def MIN_ACCEPTABLE_SCORE_def)
next
  show "select_image e imgs = None \<longleftrightarrow>
         (\<forall>d \<in> set (unique_images imgs). \<not> (40 \<le> score d \<and> validate_image_size e (url d)))"
  proof (cases "imgs = []")
    case True
    then show ?thesis by (simp add: select_image_def unique_images_Nil)
  next
    case False
    then show ?thesis
      by (simp add: select_image_def first_acceptable_None set_sort_by_score acceptable_def
          MIN_ACCEPTABLE_SCORE_def)
  qed
qed

section \<open>Properties of the fallback chain\<close>










theorem selector_returns_first_qualifying_witness:
  "select_image offline
     [\<lparr>url = ''a'', score = 30, source = ''soup''\<rparr>, \<lparr>url = ''b'', score = 55, source = ''soup''\<rparr>]
     = Some \<lparr>url = ''b'', score = 55, source = ''soup''\<rparr>
   \<and> (\<exists>before after.
         sort_by_score (unique_images
           [\<lparr>url = ''a'', score = 30, source = ''soup''\<rparr>, \<lparr>url = ''b'', score = 55, source = ''soup''\<rparr>])
           = before @ \<lparr>url = ''b'', score = 55, source = ''soup''\<rparr> # after)
   \<and> validate_image_size offline ''b''
   \<and> select_image offline [\<lparr>url = ''a'', score = 30, source = ''soup''\<rparr>] = None
   \<and> select_image offline [] = None"
proof -
  let ?a = "\<lparr>url = ''a'', score = 30, source = ''soup''\<rparr>"
  let ?b = "\<lparr>url = ''b'', score = 55, source = ''soup''\<rparr>"
  have v: "validate_image_size offline ''b''"
    by (simp add: validate_image_size_def offline_def)
  have u: "unique_images [?a, ?b] = [?a, ?b]" "unique_images [?a] = [?a]"
    by (simp_all add: unique_images_def Let_def)
  have sel: "select_image offline [?a, ?b] = Some ?b"
    using v by (simp add: select_image_def u sort_by_score_def acceptable_def MIN_ACCEPTABLE_SCORE_def)
  have none: "select_image offline [?a] = None" "select_image offline [] = None"
    by (simp_all add: select_image_def u sort_by_score_def acceptable_def MIN_ACCEPTABLE_SCORE_def)
  from selector_returns_first_qualifying [of "[?a, ?b]" offline] sel
  have "\<exists>before after. sort_by_score (unique_images [?a, ?b]) = before @ ?b # after"
    by blast
  with sel v none show ?thesis by simp
qed


section \<open>Properties of validate_image_size\<close>





lemma py_int_separator: "py_int (CHR 0x1F # ''20000000'') = None"
  by (simp add: py_int_def strip_def is_space_def is_digit_def)



section \<open>Properties of the scorer and of the meta-tag extraction\<close>

lemma source_prior_unrecognized:
  "m \<notin> set recognized_methods \<Longrightarrow> source_prior m = 0"
  by (simp add: recognized_methods_def source_prior_def)

lemma source_prior_meta:
  "source_prior ''opengraph'' = 0" "source_prior ''twitter_card'' = 0" "source_prior ''schema'' = 0"
  by (simp_all add: source_prior_def)

lemma source_prior_range: "0 \<le> source_prior m \<and> source_prior m \<le> 30"
  by (simp add: source_prior_def)

lemma score_unrecognized:
  assumes "source_prior m = 0" and "source_prior m' = 0"
  shows "score_image_relevance u t m a = score_image_relevance u t m' a'"
proof -
  from assms have "raw_score u t m = raw_score u t m'" by (simp add: raw_score_def)
  then show ?thesis by (simp add: score_image_relevance_def split: option.splits)
qed

lemma score_image_relevance_range:
  "score_image_relevance u t m a = Some s \<Longrightarrow> 0 \<le> s \<and> s \<le> 100"
  by (auto simp: score_image_relevance_def split: option.splits)

lemma meta_candidate_sound:
  assumes "meta_candidate urljoin base content m bonus = Some found" and "c \<in> set found"
  shows "source c = m \<and> (\<exists>s. score_image_relevance (url c) None m [] = Some s \<and> score c = s + bonus)"
  using assms
  by (auto simp: meta_candidate_def split: option.splits bool.splits)

lemma meta_tag_sound:
  assumes "meta_tag urljoin base content m bonus = Some found" and "c \<in> set found"
  shows "source c = m \<and> (\<exists>s. score_image_relevance (url c) None m [] = Some s \<and> score c = s + bonus)"
  using assms meta_candidate_sound [of urljoin base _ m bonus found c]
  by (auto simp: meta_tag_def split: option.splits if_splits)

lemma schema_candidates_sound:
  "c \<in> set (schema_candidates urljoin base scripts) \<Longrightarrow>
   source c = ''schema''
   \<and> (\<exists>s. score_image_relevance (url c) None ''schema'' [] = Some s \<and> score c = s + 22)"
proof (induction urljoin base scripts rule: schema_candidates.induct)
  case (1 urljoin base)
  then show ?case by simp
next
  case (2 urljoin base scripts)
  then show ?case by simp
next
  case (3 urljoin base scripts)
  then show ?case by simp
next
  case (4 urljoin base data scripts)
  show ?case
  proof (cases "schema_image_of data")
    case None
    with 4 show ?thesis by simp
  next
    case (Some s)
    show ?thesis
    proof (cases "meta_candidate urljoin base s ''schema'' 22")
      case None
      with 4 Some show ?thesis by simp
    next
      case (Some found)
      with 4 \<open>schema_image_of data = Some s\<close>
      have "c \<in> set found \<or> c \<in> set (schema_candidates urljoin base scripts)" by simp
      then show ?thesis
      proof
        assume "c \<in> set found"
        with Some show ?thesis by (rule meta_candidate_sound)
      next
        assume "c \<in> set (schema_candidates urljoin base scripts)"
        with "4.IH"(2) \<open>schema_image_of data = Some s\<close> Some show ?thesis by simp
      qed
    qed
  qed
qed

lemma extract_opengraph_images_sound:
  assumes "extract_opengraph_images urljoin sp base = Some found" and "c \<in> set found"
  shows "\<exists>s. score_image_relevance (url c) None (source c) [] = Some s
           \<and> ((source c = ''opengraph'' \<and> score c = s + 25)
              \<or> (source c = ''twitter_card'' \<and> score c = s + 20)
              \<or> (source c = ''schema'' \<and> score c = s + 22))"
proof -
  from assms(1) obtain og tw where
    og: "meta_tag urljoin base (og_image sp) ''opengraph'' 25 = Some og" and
    tw: "meta_tag urljoin base (twitter_image sp) ''twitter_card'' 20 = Some tw" and
    found: "found = og @ tw @ schema_candidates urljoin base (ld_json sp)"
    by (auto simp: extract_opengraph_images_def split: option.splits)
  from assms(2) found consider "c \<in> set og" | "c \<in> set tw"
    | "c \<in> set (schema_candidates urljoin base (ld_json sp))" by auto
  then show ?thesis
  proof cases
    case 1
    from meta_tag_sound [OF og 1] show ?thesis by auto
  next
    case 2
    from meta_tag_sound [OF tw 2] show ?thesis by auto
  next
    case 3
    from schema_candidates_sound [OF 3] show ?thesis by auto
  qed
qed

subsection \<open>Evaluating the exclusion patterns\<close>

lemma regex_search_split: "regex_search ps s = list_ex (\<lambda>p. search_one p s) ps"
  by (induction s) (auto simp: search_one_def list_ex_iff)

lemma match_here_lit: "match_here (lit w) s = startswith (lower s) w"
  by (induction w arbitrary: s) (case_tac s; auto simp: lit_def lower_def)+

lemma startswith_Nil: "startswith [] w = (w = [])"
  by (cases w) simp_all

lemma search_one_lit: "search_one (lit w) s = contains (lower s) w"
  by (induction s) (auto simp: search_one_def match_here_lit lower_def startswith_Nil)

subsection \<open>The two example URLs\<close>

lemma lower_fb_pixel_url: "lower fb_pixel_url = fb_pixel_url"
  by (simp add: fb_pixel_url_def lower_def lower_char_def is_upper_def)

lemma lower_featured_photo_url: "lower featured_photo_url = featured_photo_url"
  by (simp add: featured_photo_url_def lower_def lower_char_def is_upper_def)

lemma regex_fb_pixel_url: "exclude_regex_search fb_pixel_url = False"
  apply (simp only: exclude_regex_search_def exclude_patterns_def regex_search_split
      list_ex_Nil_iff list_ex_Cons_iff search_one_lit lower_fb_pixel_url)
  apply (simp only: fb_pixel_url_def)
  apply code_simp
  done

lemma regex_featured_photo_url: "exclude_regex_search featured_photo_url = False"
  apply (simp only: exclude_regex_search_def exclude_patterns_def regex_search_split
      list_ex_Nil_iff list_ex_Cons_iff search_one_lit lower_featured_photo_url)
  apply (simp only: featured_photo_url_def)
  apply code_simp
  done

lemma urlparse_fb_pixel_url:
  "urlparse fb_pixel_url =
     Some \<lparr>scheme = ''https'', netloc = ''site.com'', path = ''/assets/fb_pixel_tr.gif'',
           params = [], query = [], fragment = []\<rparr>"
  unfolding fb_pixel_url_def by code_simp

lemma urlparse_featured_photo_url:
  "urlparse featured_photo_url =
     Some \<lparr>scheme = ''https'', netloc = ''cdn.example.com'', path = ''/featured-photo.jpg'',
           params = [], query = [], fragment = []\<rparr>"
  unfolding featured_photo_url_def by code_simp

lemma exclude_fb_pixel_url: "should_exclude_image_url fb_pixel_url = Some False"
  apply (simp only: should_exclude_image_url_def regex_fb_pixel_url if_False
      urlparse_fb_pixel_url option.case lower_fb_pixel_url)
  apply (simp only: fb_pixel_url_def)
  apply code_simp
  done

lemma exclude_featured_photo_url: "should_exclude_image_url featured_photo_url = Some False"
  apply (simp only: should_exclude_image_url_def regex_featured_photo_url if_False
      urlparse_featured_photo_url option.case lower_featured_photo_url)
  apply (simp only: featured_photo_url_def)
  apply code_simp
  done

lemma url_score_fb_pixel_url: "url_score fb_pixel_url = 0"
  unfolding fb_pixel_url_def by code_simp

lemma url_score_featured_photo_url: "url_score featured_photo_url = 28"
  unfolding featured_photo_url_def by code_simp

lemma extension_score_fb_pixel_url: "extension_score fb_pixel_url = - 5"
  unfolding fb_pixel_url_def by code_simp

lemma extension_score_featured_photo_url: "extension_score featured_photo_url = 5"
  unfolding featured_photo_url_def by code_simp

lemma raw_score_fb_pixel_url: "raw_score fb_pixel_url None m = 45 + source_prior m"
  by (simp add: raw_score_def lower_fb_pixel_url url_score_fb_pixel_url
      extension_score_fb_pixel_url tag_score_def analyze_image_context_def)

lemma raw_score_featured_photo_url: "raw_score featured_photo_url None m = 83 + source_prior m"
  by (simp add: raw_score_def lower_featured_photo_url url_score_featured_photo_url
      extension_score_featured_photo_url tag_score_def analyze_image_context_def)

lemma score_fb_pixel_url:
  "score_image_relevance fb_pixel_url None m a = Some (45 + source_prior m)"
  using source_prior_range [of m]
  by (simp add: score_image_relevance_def urlparse_fb_pixel_url raw_score_fb_pixel_url)

lemma score_featured_photo_url:
  "source_prior m = 0 \<Longrightarrow> score_image_relevance featured_photo_url None m a = Some 83"
  by (simp add: score_image_relevance_def urlparse_featured_photo_url raw_score_featured_photo_url)

lemma featured_photo_url_nonempty: "featured_photo_url \<noteq> []"
  by (simp add: featured_photo_url_def)

lemma extract_featured_photo_page:
  "extract_opengraph_images urljoin_absolute featured_photo_page ''https://example.com/post''
     = Some [\<lparr>url = featured_photo_url, score = 108, source = ''opengraph''\<rparr>]"
  by (simp add: extract_opengraph_images_def meta_tag_def meta_candidate_def featured_photo_page_def
      urljoin_absolute_def exclude_featured_photo_url score_featured_photo_url source_prior_meta
      featured_photo_url_nonempty)

text \<open>
  C1, at a failing input. For a page whose \<^verbatim>\<open>og:image\<close> is
  \<^verbatim>\<open>https://cdn.example.com/featured-photo.jpg\<close>, \<^verbatim>\<open>extract_opengraph_images\<close> returns
  one candidate with the score 108: the scoring function returns 83, inside the range from 0
  to 100, and the bonus of 25 is added to that clamped value. The score stored in the
  candidate is not at most 100.
\<close>

theorem opengraph_candidate_above_100:
  "extract_opengraph_images urljoin_absolute featured_photo_page ''https://example.com/post''
     = Some [\<lparr>url = featured_photo_url, score = 108, source = ''opengraph''\<rparr>]
   \<and> score_image_relevance featured_photo_url None ''opengraph'' [] = Some 83
   \<and> \<not> score \<lparr>url = featured_photo_url, score = 108, source = ''opengraph''\<rparr> \<le> 100"
  by (simp add: extract_featured_photo_page score_featured_photo_url source_prior_meta)

text \<open>
  C2, as stated, fails: for \<^verbatim>\<open>https://cdn.example.com/featured-photo.jpg\<close> the scoring
  function returns 83 with the source method \<^verbatim>\<open>opengraph\<close> and 83 with an unrecognized source
  method, not 25 more.
\<close>

theorem scorer_adds_no_opengraph_bonus:
  "score_image_relevance featured_photo_url None ''opengraph'' [] = Some 83
   \<and> score_image_relevance featured_photo_url None ''unrecognized'' [] = Some 83
   \<and> score_image_relevance featured_photo_url None ''opengraph'' []
       \<noteq> map_option (\<lambda>s. s + 25) (score_image_relevance featured_photo_url None ''unrecognized'' [])"
  by (simp add: score_featured_photo_url source_prior_meta source_prior_def)

text \<open>
  C2, amended. The scoring function has no prior for \<^verbatim>\<open>opengraph\<close>, \<^verbatim>\<open>twitter_card\<close> and
  \<^verbatim>\<open>schema\<close>: for each of them it returns what it returns for the same URL and element
  with any unrecognized source method. The bonus is added by \<^verbatim>\<open>extract_opengraph_images\<close>,
  once: every candidate it returns carries the score that the scoring function returns for
  its URL and source, plus 25 for \<^verbatim>\<open>opengraph\<close>, 20 for \<^verbatim>\<open>twitter_card\<close>, 22 for \<^verbatim>\<open>schema\<close>.
\<close>

theorem bonus_added_once_by_extractor:
  "(m \<notin> set recognized_methods \<longrightarrow>
       score_image_relevance u t ''opengraph'' a = score_image_relevance u t m a
     \<and> score_image_relevance u t ''twitter_card'' a = score_image_relevance u t m a
     \<and> score_image_relevance u t ''schema'' a = score_image_relevance u t m a)
   \<and> (extract_opengraph_images urljoin sp base = Some found \<longrightarrow>
        (\<forall>c \<in> set found. \<exists>s. score_image_relevance (url c) None (source c) [] = Some s
           \<and> ((source c = ''opengraph'' \<and> score c = s + 25)
              \<or> (source c = ''twitter_card'' \<and> score c = s + 20)
              \<or> (source c = ''schema'' \<and> score c = s + 22))))"
proof (intro conjI impI ballI)
  assume m: "m \<notin> set recognized_methods"
  then have 0: "source_prior m = 0" by (rule source_prior_unrecognized)
  show "score_image_relevance u t ''opengraph'' a = score_image_relevance u t m a"
    by (rule score_unrecognized [OF source_prior_meta(1) 0])
  show "score_image_relevance u t ''twitter_card'' a = score_image_relevance u t m a"
    by (rule score_unrecognized [OF source_prior_meta(2) 0])
  show "score_image_relevance u t ''schema'' a = score_image_relevance u t m a"
    by (rule score_unrecognized [OF source_prior_meta(3) 0])
next
  fix c assume "extract_opengraph_images urljoin sp base = Some found" "c \<in> set found"
  then show "\<exists>s. score_image_relevance (url c) None (source c) [] = Some s
           \<and> ((source c = ''opengraph'' \<and> score c = s + 25)
              \<or> (source c = ''twitter_card'' \<and> score c = s + 20)
              \<or> (source c = ''schema'' \<and> score c = s + 22))"
    by (rule extract_opengraph_images_sound)
qed

theorem bonus_added_once_by_extractor_witness:
  "''unrecognized'' \<notin> set recognized_methods
   \<and> score_image_relevance featured_photo_url None ''opengraph'' []
       = score_image_relevance featured_photo_url None ''unrecognized'' []
   \<and> extract_opengraph_images urljoin_absolute featured_photo_page ''https://example.com/post''
       = Some [\<lparr>url = featured_photo_url, score = 108, source = ''opengraph''\<rparr>]
   \<and> (\<exists>s. score_image_relevance featured_photo_url None ''opengraph'' [] = Some s
          \<and> (108::int) = s + 25)"
proof -
  let ?c = "\<lparr>url = featured_photo_url, score = 108, source = ''opengraph''\<rparr>"
  have m: "''unrecognized'' \<notin> set recognized_methods" by (simp add: recognized_methods_def)
  note t = bonus_added_once_by_extractor [of "''unrecognized''" featured_photo_url None "[]"
      urljoin_absolute featured_photo_page "''https://example.com/post''" "[?c]"]
  from t m have 1: "score_image_relevance featured_photo_url None ''opengraph'' []
       = score_image_relevance featured_photo_url None ''unrecognized'' []" by blast
  from t extract_featured_photo_page
  have "\<exists>s. score_image_relevance (url ?c) None (source ?c) [] = Some s
           \<and> ((source ?c = ''opengraph'' \<and> score ?c = s + 25)
              \<or> (source ?c = ''twitter_card'' \<and> score ?c = s + 20)
              \<or> (source ?c = ''schema'' \<and> score ?c = s + 22))"
    by simp
  then have 2: "\<exists>s. score_image_relevance featured_photo_url None ''opengraph'' [] = Some s
          \<and> (108::int) = s + 25" by simp
  from m 1 extract_featured_photo_page 2 show ?thesis by blast
qed

text \<open>
  C3, as stated, fails: the filter does not exclude
  \<^verbatim>\<open>https://site.com/assets/fb_pixel_tr.gif\<close>, the scoring function gives it 50 as a
  \<^verbatim>\<open>soup\<close> candidate, and as the only candidate, with a validator that accepts it, it is
  the image selected.
\<close>

theorem fb_pixel_not_excluded:
  "should_exclude_image_url fb_pixel_url = Some False
   \<and> score_image_relevance fb_pixel_url None ''soup'' [] = Some 50
   \<and> select_image offline [\<lparr>url = fb_pixel_url, score = 50, source = ''soup''\<rparr>]
       = Some \<lparr>url = fb_pixel_url, score = 50, source = ''soup''\<rparr>"
proof -
  have "unique_images [\<lparr>url = fb_pixel_url, score = 50, source = ''soup''\<rparr>]
      = [\<lparr>url = fb_pixel_url, score = 50, source = ''soup''\<rparr>]"
    by (simp add: unique_images_def Let_def)
  moreover have "validate_image_size offline fb_pixel_url"
    by (simp add: validate_image_size_def offline_def)
  ultimately show ?thesis
    by (simp add: exclude_fb_pixel_url score_fb_pixel_url source_prior_def select_image_def
        sort_by_score_def acceptable_def MIN_ACCEPTABLE_SCORE_def)
qed

text \<open>
  C3, amended. The filter does not exclude \<^verbatim>\<open>https://site.com/assets/fb_pixel_tr.gif\<close>.
  Scored without an element, it gets 45 plus the prior of its source method, so at least 45.
  As the only candidate it is selected when \<^verbatim>\<open>validate_image_size\<close> accepts it, and the
  outcome is None only when the validator rejects it.
\<close>

theorem fb_pixel_selected_when_valid:
  "should_exclude_image_url fb_pixel_url = Some False
   \<and> score_image_relevance fb_pixel_url None m a = Some (45 + source_prior m)
   \<and> 45 \<le> 45 + source_prior m
   \<and> select_image e [\<lparr>url = fb_pixel_url, score = 45 + source_prior m, source = m\<rparr>]
       = (if validate_image_size e fb_pixel_url
          then Some \<lparr>url = fb_pixel_url, score = 45 + source_prior m, source = m\<rparr>
          else None)"
proof -
  let ?c = "\<lparr>url = fb_pixel_url, score = 45 + source_prior m, source = m\<rparr>"
  have u: "unique_images [?c] = [?c]"
    by (simp add: unique_images_def Let_def)
  have p: "0 \<le> source_prior m" using source_prior_range [of m] by simp
  have "select_image e [?c] = (if validate_image_size e fb_pixel_url then Some ?c else None)"
    using p by (simp add: select_image_def u sort_by_score_def acceptable_def MIN_ACCEPTABLE_SCORE_def)
  with p show ?thesis
    by (simp add: exclude_fb_pixel_url score_fb_pixel_url)
qed


section \<open>Determinism of the scorer and of the selection\<close>

lemma first_acceptable_cong:
  "(\<And>c. c \<in> set imgs \<Longrightarrow> acceptable e1 c = acceptable e2 c) \<Longrightarrow>
   first_acceptable e1 imgs = first_acceptable e2 imgs"
  by (induction imgs) simp_all

lemma select_image_cong:
  assumes "\<And>c. c \<in> set imgs \<Longrightarrow> validate_image_size e1 (url c) = validate_image_size e2 (url c)"
  shows "select_image e1 imgs = select_image e2 imgs"
proof -
  have "first_acceptable e1 (sort_by_score (unique_images imgs))
      = first_acceptable e2 (sort_by_score (unique_images imgs))"
  proof (rule first_acceptable_cong)
    fix c assume "c \<in> set (sort_by_score (unique_images imgs))"
    then have "c \<in> set imgs" by (simp add: set_sort_by_score unique_images_subset)
    with assms show "acceptable e1 c = acceptable e2 c" by (simp add: acceptable_def)
  qed
  then show ?thesis by (simp add: select_image_def)
qed

text \<open>
  C9. The score is a function of the URL, the element and the source method: two calls that
  agree on these three return the same value, also when the surrounding text differs, which
  the method does not read. Two runs of the selection over the same candidate sequence, in
  environments whose validators give the same answers for the URLs of the candidates, choose
  the same candidate. Ties keep first-seen order: the deduplicated candidates stand in the
  order in which their URLs were first seen, and the descending sort keeps the candidates of
  every score in that order.
\<close>

theorem scorer_and_selector_deterministic:
  "(u1 = u2 \<and> t1 = t2 \<and> m1 = m2 \<longrightarrow>
       score_image_relevance u1 t1 m1 a1 = score_image_relevance u2 t2 m2 a2)
   \<and> ((\<forall>c \<in> set imgs. validate_image_size e1 (url c) = validate_image_size e2 (url c))
        \<longrightarrow> select_image e1 imgs = select_image e2 imgs)
   \<and> map url (unique_images imgs) = first_occurrences (map url imgs)
   \<and> (\<forall>k. filter (\<lambda>c. score c = k) (sort_by_score (unique_images imgs))
            = filter (\<lambda>c. score c = k) (unique_images imgs))"
proof (intro conjI impI allI)
  assume "u1 = u2 \<and> t1 = t2 \<and> m1 = m2"
  then show "score_image_relevance u1 t1 m1 a1 = score_image_relevance u2 t2 m2 a2"
    by (simp add: score_image_relevance_def)
next
  assume "\<forall>c \<in> set imgs. validate_image_size e1 (url c) = validate_image_size e2 (url c)"
  then show "select_image e1 imgs = select_image e2 imgs"
    by (intro select_image_cong) simp
next
  show "map url (unique_images imgs) = first_occurrences (map url imgs)"
    by (rule unique_images_urls)
next
  fix k
  show "filter (\<lambda>c. score c = k) (sort_by_score (unique_images imgs))
            = filter (\<lambda>c. score c = k) (unique_images imgs)"
    by (rule sort_by_score_stable)
qed

theorem scorer_and_selector_deterministic_witness:
  "score_image_relevance fb_pixel_url None ''soup'' ''one text''
     = score_image_relevance fb_pixel_url None ''soup'' ''another text''
   \<and> validate_image_size offline ''a'' = validate_image_size undecodable ''a''
   \<and> validate_image_size offline ''b'' = validate_image_size undecodable ''b''
   \<and> select_image offline
        [\<lparr>url = ''a'', score = 55, source = ''newspaper''\<rparr>, \<lparr>url = ''b'', score = 55, source = ''soup''\<rparr>]
       = select_image undecodable
        [\<lparr>url = ''a'', score = 55, source = ''newspaper''\<rparr>, \<lparr>url = ''b'', score = 55, source = ''soup''\<rparr>]
   \<and> select_image offline
        [\<lparr>url = ''a'', score = 55, source = ''newspaper''\<rparr>, \<lparr>url = ''b'', score = 55, source = ''soup''\<rparr>]
       = Some \<lparr>url = ''a'', score = 55, source = ''newspaper''\<rparr>"
proof -
  let ?a = "\<lparr>url = ''a'', score = 55, source = ''newspaper''\<rparr>"
  let ?b = "\<lparr>url = ''b'', score = 55, source = ''soup''\<rparr>"
  have v: "validate_image_size offline ''a''" "validate_image_size offline ''b''"
    "validate_image_size undecodable ''a''" "validate_image_size undecodable ''b''"
    by (simp_all add: validate_image_size_def offline_def undecodable_def tiny_image_def
        check_content_length_def raise_for_status_def chunk_size_def)
  have u: "unique_images [?a, ?b] = [?a, ?b]"
    by (simp add: unique_images_def Let_def)
  have sel: "select_image offline [?a, ?b] = Some ?a"
    using v by (simp add: select_image_def u sort_by_score_def acceptable_def MIN_ACCEPTABLE_SCORE_def)
  note t = scorer_and_selector_deterministic
    [of fb_pixel_url fb_pixel_url None None "''soup''" "''soup''" "''one text''" "''another text''"
        "[?a, ?b]" offline undecodable]
  from t have 1: "score_image_relevance fb_pixel_url None ''soup'' ''one text''
     = score_image_relevance fb_pixel_url None ''soup'' ''another text''" by blast
  from t v have 2: "select_image offline [?a, ?b] = select_image undecodable [?a, ?b]" by simp
  from 1 2 v sel show ?thesis by simp
qed


section \<open>Properties of the conversion in download_image\<close>













lemma download_image_to_rgb:
  assumes "session_get e img_url = Inr response" "\<not> raise_for_status response"
    "response_content (iter_content response) = Inr image_data"
    "Image_open pil image_data = Some img"
  shows "download_image e pil img_url = to_rgb pil img"
  using assms by (simp add: download_image_def)



end
